theory Spec2Isabelle
  imports Main
begin

section \<open>Paths\<close>

text \<open>
  A path is the list of its components below the filesystem root, as \<open>pathlib\<close>
  keeps them.  \<open>Path / str\<close> splits its right operand at the separator, drops empty
  components and \<open>.\<close> components, and keeps \<open>..\<close>.
\<close>

type_synonym path = "string list"

fun split_sep :: "string \<Rightarrow> string list" where
  "split_sep [] = [[]]"
| "split_sep (c # cs) =
     (if c = CHR ''/'' then [] # split_sep cs
      else (let r = split_sep cs in (c # hd r) # tl r))"

definition parts :: "string \<Rightarrow> path" where
  "parts s = filter (\<lambda>c. c \<noteq> [] \<and> c \<noteq> ''.'') (split_sep s)"

definition pjoin :: "path \<Rightarrow> string \<Rightarrow> path" where
  "pjoin p s = (if s \<noteq> [] \<and> hd s = CHR ''/'' then parts s else p @ parts s)"

text \<open>\<open>Path.parent\<close>: the root is its own parent.\<close>

definition parent :: "path \<Rightarrow> path" where
  "parent p = butlast p"

fun str_path :: "path \<Rightarrow> string" where
  "str_path [] = ''/''"
| "str_path (c # cs) = CHR ''/'' # c @ (if cs = [] then [] else str_path cs)"

fun strip_prefix :: "'a list \<Rightarrow> 'a list \<Rightarrow> 'a list option" where
  "strip_prefix [] ys = Some ys"
| "strip_prefix (x # xs) [] = None"
| "strip_prefix (x # xs) (y # ys) = (if x = y then strip_prefix xs ys else None)"

definition under :: "path \<Rightarrow> path \<Rightarrow> bool" where
  "under d p = (case strip_prefix d p of None \<Rightarrow> False | Some _ \<Rightarrow> True)"

section \<open>Files, JSON values, errors and the world\<close>

text \<open>
  A filesystem maps a path to what is there.  A zip archive is a file whose content is
  the map from member names to members.
\<close>

datatype node = Dir | File string | Zip "path \<Rightarrow> node option"

type_synonym tree = "path \<Rightarrow> node option"

text \<open>
  \<open>Path.exists()\<close> and \<open>Path.is_dir()\<close> read the tree.  Where the operating system
  would make one of them raise (a name too long, a directory that cannot be searched), it
  refuses the next changing call on the same path as well, and the refusal is modelled
  there.
\<close>

definition exists :: "tree \<Rightarrow> path \<Rightarrow> bool" where
  "exists t p = (case t p of None \<Rightarrow> False | Some _ \<Rightarrow> True)"

definition is_dir :: "tree \<Rightarrow> path \<Rightarrow> bool" where
  "is_dir t p = (case t p of Some Dir \<Rightarrow> True | _ \<Rightarrow> False)"

datatype json =
    JNull | JBool bool | JNum string | JStr string
  | JArr "json list" | JObj "(string \<times> json) list"

datatype error =
    FileNotFoundError path
  | FileExistsError path
  | IsADirectoryError path
  | NotADirectoryError path
  | PermissionError path
  | JSONDecodeError
  | UnicodeDecodeError
  | AttributeError
  | ShutilError path
  | OSError path
  | ValueError

text \<open>
  The calls of the script that change the filesystem.  Each of them can be refused by
  the operating system or by the library for reasons the tree does not show: a name
  longer than the filesystem allows, a NUL character in a name, a full disk, a directory
  that cannot be written, a timestamp that a zip archive cannot store.
\<close>

datatype action =
    Mkdir path | CopyTree path | Copy2 path | Unlink path | MakeArchive path

text \<open>
  The world: the disk, the temporary directory while it exists (paths relative to it),
  the console, the paths that cannot be read, the error with which each action is
  refused (\<open>None\<close> when it is not), and what a refused archive creation leaves at its
  target (\<open>None\<close> when the file was not even created).
\<close>

record world =
  disk :: tree
  temp :: "tree option"
  console :: "string list"
  faulty :: "path list"
  refused :: "action \<Rightarrow> error option"
  leftover :: "node option"

text \<open>
  What the script takes from its surroundings: the directory of \<open>__file__\<close>, the
  library's JSON parser (\<open>None\<close> when it raises) with the error it raises then
  (\<open>JSONDecodeError\<close> on text that is not JSON, \<open>UnicodeDecodeError\<close> on bytes that
  are not text), the bytes of a zip archive, \<open>str\<close> on a parsed value that is not a
  string, and the size of a file in kilobytes, formatted to one decimal.
\<close>

record env =
  script_dir :: path
  json_load :: "string \<Rightarrow> json option"
  json_error :: "string \<Rightarrow> error"
  zip_bytes :: "tree \<Rightarrow> string"
  py_str :: "json \<Rightarrow> string"
  size_kb :: "node \<Rightarrow> string"

definition print :: "string \<Rightarrow> world \<Rightarrow> world" where
  "print s w = w\<lparr>console := console w @ [s]\<rparr>"

definition INCLUDE :: "string list" where
  "INCLUDE =
     [''code'', ''LICENSE'', ''README.md'', ''OSC_CONFIG_README.md'',
      ''osc_parameters.json'', ''package.json'', ''package-lock.json'',
      ''pulsoid_widget_osc.vrmanifest'', ''run.bat'', ''widget_id.txt.template'']"

section \<open>Reading the version\<close>

text \<open>\<open>dict.get\<close> exists on a parsed object only; any other value has no \<open>get\<close>.\<close>

definition dict_get :: "json \<Rightarrow> string \<Rightarrow> json \<Rightarrow> error + json" where
  "dict_get data k dflt =
     (case data of
        JObj kvs \<Rightarrow> Inr (case map_of kvs k of Some v \<Rightarrow> v | None \<Rightarrow> dflt)
      | _ \<Rightarrow> Inl AttributeError)"

definition open_read :: "world \<Rightarrow> path \<Rightarrow> error + node" where
  "open_read w p =
     (case disk w p of
        None \<Rightarrow> Inl (FileNotFoundError p)
      | Some Dir \<Rightarrow> Inl (IsADirectoryError p)
      | Some n \<Rightarrow> (if p \<in> set (faulty w) then Inl (PermissionError p) else Inr n))"

text \<open>What reading a file gives: its text, or the bytes of the archive it is.\<close>

definition content :: "env \<Rightarrow> node \<Rightarrow> string" where
  "content e n = (case n of File text \<Rightarrow> text | Zip m \<Rightarrow> zip_bytes e m | Dir \<Rightarrow> [])"

definition get_version_from_package :: "env \<Rightarrow> world \<Rightarrow> error + json" where
  "get_version_from_package e w =
     (let package_path = pjoin (script_dir e) ''package.json'' in
      case open_read w package_path of
        Inl err \<Rightarrow> Inl err
      | Inr n \<Rightarrow>
          (case json_load e (content e n) of
             None \<Rightarrow> Inl (json_error e (content e n))
           | Some data \<Rightarrow> dict_get data ''version'' (JStr ''0.0.0'')))"

text \<open>The f-strings of the script format the version with \<open>str\<close>.\<close>

definition format_version :: "env \<Rightarrow> json \<Rightarrow> string" where
  "format_version e v = (case v of JStr s \<Rightarrow> s | _ \<Rightarrow> py_str e v)"

text \<open>
  Lines 86 to 90 of \<open>main\<close>: the version and the world after the
  \<open>[INFO]\<close> line, or the error of the metadata read.
\<close>

definition resolve_version :: "env \<Rightarrow> string list \<Rightarrow> world \<Rightarrow> world \<times> (error + string)" where
  "resolve_version e argv w =
     (if length argv > 1 then (w, Inr (argv ! 1))
      else
        (case get_version_from_package e w of
           Inl err \<Rightarrow> (w, Inl err)
         | Inr v \<Rightarrow>
             (let version = format_version e v in
              (print (''[INFO] No version specified, using package.json: v'' @ version) w,
               Inr version))))"

section \<open>The staging directory\<close>

definition temp_lookup :: "world \<Rightarrow> path \<Rightarrow> node option" where
  "temp_lookup w p = (case temp w of None \<Rightarrow> None | Some m \<Rightarrow> m p)"

definition upd_temp :: "(tree \<Rightarrow> tree) \<Rightarrow> world \<Rightarrow> world" where
  "upd_temp f w = w\<lparr>temp := map_option f (temp w)\<rparr>"

definition bind ::
  "world \<times> (error + 'a) \<Rightarrow> ('a \<Rightarrow> world \<Rightarrow> world \<times> (error + 'b)) \<Rightarrow> world \<times> (error + 'b)" where
  "bind r k = (case r of (w, Inl err) \<Rightarrow> (w, Inl err) | (w, Inr x) \<Rightarrow> k x w)"

text \<open>\<open>Path.mkdir()\<close> without \<open>parents\<close>, inside the temporary directory.\<close>

definition mkdir_temp :: "path \<Rightarrow> world \<Rightarrow> world \<times> (error + unit)" where
  "mkdir_temp p w =
     (case refused w (Mkdir p) of
        Some err \<Rightarrow> (w, Inl err)
      | None \<Rightarrow>
          (if exists (temp_lookup w) p then (w, Inl (FileExistsError p))
           else
             (case temp_lookup w (parent p) of
                None \<Rightarrow> (w, Inl (FileNotFoundError p))
              | Some Dir \<Rightarrow> (upd_temp (\<lambda>m. m(p \<mapsto> Dir)) w, Inr ())
              | Some _ \<Rightarrow> (w, Inl (NotADirectoryError p)))))"

text \<open>A path is blocked when it or something above it is there and cannot be read.\<close>

definition blocked :: "world \<Rightarrow> path \<Rightarrow> bool" where
  "blocked w p = (\<exists>q \<in> set (faulty w). exists (disk w) q \<and> under q p)"

text \<open>
  \<open>shutil.copytree\<close> refuses an existing destination; it copies what it can read,
  and raises at the end when something below the source could not be read.  What a
  refused copy has written into the staging tree by then is not modelled: the tree is
  discarded when the \<open>with\<close> block is left.
\<close>

definition copytree :: "path \<Rightarrow> path \<Rightarrow> world \<Rightarrow> world \<times> (error + unit)" where
  "copytree src dst w =
     (case refused w (CopyTree src) of
        Some err \<Rightarrow> (w, Inl err)
      | None \<Rightarrow>
          (if exists (temp_lookup w) dst then (w, Inl (FileExistsError dst))
           else
             (upd_temp
                (\<lambda>m p. case strip_prefix dst p of
                         None \<Rightarrow> m p
                       | Some rest \<Rightarrow>
                           (if blocked w (src @ rest) then m p else disk w (src @ rest)))
                w,
              if \<exists>q \<in> set (faulty w). exists (disk w) q \<and> (under src q \<or> under q src)
              then Inl (ShutilError src) else Inr ())))"

definition copy2 :: "path \<Rightarrow> path \<Rightarrow> world \<Rightarrow> world \<times> (error + unit)" where
  "copy2 src dst w =
     (case refused w (Copy2 src) of
        Some err \<Rightarrow> (w, Inl err)
      | None \<Rightarrow>
          (case disk w src of
             None \<Rightarrow> (w, Inl (FileNotFoundError src))
           | Some n \<Rightarrow>
               (if blocked w src then (w, Inl (PermissionError src))
                else (upd_temp (\<lambda>m. m(dst \<mapsto> n)) w, Inr ()))))"

text \<open>The loop of lines 55 to 68.\<close>

fun copy_items :: "env \<Rightarrow> path \<Rightarrow> string list \<Rightarrow> world \<Rightarrow> world \<times> (error + unit)" where
  "copy_items e temp_path [] w = (w, Inr ())"
| "copy_items e temp_path (item # items) w =
     (let src = pjoin (script_dir e) item; dst = pjoin temp_path item in
      if \<not> exists (disk w) src then
        copy_items e temp_path items (print (''[WARN] Missing: '' @ item) w)
      else if is_dir (disk w) src then
        bind (copytree src dst w)
          (\<lambda>_ w1. copy_items e temp_path items (print (''[OK] Copied directory: '' @ item) w1))
      else
        bind (copy2 src dst w)
          (\<lambda>_ w1. copy_items e temp_path items (print (''[OK] Copied file: '' @ item) w1)))"

section \<open>The archive\<close>

text \<open>
  \<open>Path.unlink()\<close> removes a file whether or not the file itself can be read; what can
  stop it is a refusal of the operating system (a directory that cannot be written).
\<close>

definition unlink :: "path \<Rightarrow> world \<Rightarrow> world \<times> (error + unit)" where
  "unlink p w =
     (case disk w p of
        None \<Rightarrow> (w, Inl (FileNotFoundError p))
      | Some Dir \<Rightarrow> (w, Inl (IsADirectoryError p))
      | Some _ \<Rightarrow>
          (case refused w (Unlink p) of
             Some err \<Rightarrow> (w, Inl err)
           | None \<Rightarrow> (w\<lparr>disk := (disk w)(p := None)\<rparr>, Inr ())))"

text \<open>
  The file \<open>shutil.make_archive\<close> writes: the base name, as a string, with
  \<open>.zip\<close> appended.
\<close>

definition archive_file :: "path \<Rightarrow> path" where
  "archive_file base = (if base = [] then [''.zip''] else butlast base @ [last base @ ''.zip''])"

text \<open>
  The members of the archive: the base directory and everything below it in the root
  directory, named relative to the root.  The root directory of the script's call is the
  temporary directory.  Writing fails on a directory; a file already at the target would
  be replaced.  A refused creation raises and leaves at the target what the world says
  it leaves: nothing new when the file could not be created, a partial archive when the
  refusal came later.
\<close>

definition members :: "tree \<Rightarrow> path \<Rightarrow> tree" where
  "members root base_dir = (\<lambda>p. if under base_dir p then root p else None)"

definition make_archive :: "path \<Rightarrow> string \<Rightarrow> world \<Rightarrow> world \<times> (error + unit)" where
  "make_archive base_name base_dir w =
     (let target = archive_file base_name; bd = parts base_dir in
      if \<not> exists (temp_lookup w) bd then (w, Inl (FileNotFoundError bd))
      else if is_dir (disk w) target then (w, Inl (IsADirectoryError target))
      else
        (case refused w (MakeArchive target) of
           Some err \<Rightarrow>
             (case leftover w of
                None \<Rightarrow> (w, Inl err)
              | Some n \<Rightarrow> (w\<lparr>disk := (disk w)(target \<mapsto> n)\<rparr>, Inl err))
         | None \<Rightarrow>
             (w\<lparr>disk := (disk w)(target \<mapsto> Zip (members (temp_lookup w) bd))\<rparr>, Inr ())))"

section \<open>Building the release\<close>

definition zip_name :: "string \<Rightarrow> string" where
  "zip_name version = ''PulsoidWidget-to-OSC-v'' @ version"

definition output_dir :: "env \<Rightarrow> path" where
  "output_dir e = parent (script_dir e)"

definition zip_path :: "env \<Rightarrow> string \<Rightarrow> path" where
  "zip_path e version = pjoin (output_dir e) (zip_name version @ ''.zip'')"

text \<open>Lines 51 to 68: the staging subdirectory and the copies.\<close>

definition copy_phase :: "env \<Rightarrow> string \<Rightarrow> world \<Rightarrow> world \<times> (error + unit)" where
  "copy_phase e version w =
     (let temp_path = pjoin [] (zip_name version) in
      bind (mkdir_temp temp_path w) (\<lambda>_. copy_items e temp_path INCLUDE))"

text \<open>Lines 71 to 79: the old archive goes, the new one is written.\<close>

definition zip_phase :: "env \<Rightarrow> string \<Rightarrow> world \<Rightarrow> world \<times> (error + unit)" where
  "zip_phase e version w =
     bind (if exists (disk w) (zip_path e version) then unlink (zip_path e version) w
           else (w, Inr ()))
       (\<lambda>_. make_archive (pjoin (output_dir e) (zip_name version)) (zip_name version))"

text \<open>
  The body of the \<open>with\<close> block runs in a fresh temporary directory, which is removed
  when the block is left, by return or by exception.
\<close>

definition with_temporary_directory ::
  "(world \<Rightarrow> world \<times> (error + 'a)) \<Rightarrow> world \<Rightarrow> world \<times> (error + 'a)" where
  "with_temporary_directory body w =
     (case body (w\<lparr>temp := Some [[] \<mapsto> Dir]\<rparr>) of (w1, r) \<Rightarrow> (w1\<lparr>temp := None\<rparr>, r))"

text \<open>Lines 46 and 47.\<close>

definition announce :: "env \<Rightarrow> string \<Rightarrow> world \<Rightarrow> world" where
  "announce e version w =
     print (''[BUILD] Output: '' @ str_path (zip_path e version))
       (print (''[BUILD] Creating release v'' @ version) w)"

definition build_release :: "env \<Rightarrow> string \<Rightarrow> world \<Rightarrow> world \<times> (error + path)" where
  "build_release e version w =
     (let w0 = announce e version w in
      bind (with_temporary_directory
              (\<lambda>w1. bind (copy_phase e version w1) (\<lambda>_. zip_phase e version)) w0)
        (\<lambda>_ w2.
           let w3 = print (''[BUILD] Done! Created: '' @ str_path (zip_path e version)) w2 in
           case disk w3 (zip_path e version) of
             None \<Rightarrow> (w3, Inl (FileNotFoundError (zip_path e version)))
           | Some n \<Rightarrow> (print (''[BUILD] Size: '' @ size_kb e n @ '' KB'') w3,
                        Inr (zip_path e version))))"

definition main :: "env \<Rightarrow> string list \<Rightarrow> world \<Rightarrow> world \<times> (error + unit)" where
  "main e argv w =
     bind (resolve_version e argv w)
       (\<lambda>version w1. bind (build_release e version w1) (\<lambda>_ w2. (w2, Inr ())))"

section \<open>What a successful copy loop leaves in the staging directory\<close>

text \<open>
  The staging tree expected after the loop over \<open>items\<close>, from the disk \<open>d\<close> and the
  tree \<open>old\<close> before the loop: below the staging subdirectory \<open>tp\<close>, an item that is a
  directory on disk brings its whole subtree, an item that is a file brings itself, and a
  missing item brings nothing.
\<close>

definition snapshot :: "env \<Rightarrow> tree \<Rightarrow> path \<Rightarrow> string list \<Rightarrow> tree \<Rightarrow> tree" where
  "snapshot e d tp items old =
     (\<lambda>p. case strip_prefix tp p of
            Some (i # rest) \<Rightarrow>
              (if i \<in> set items \<and> exists d (script_dir e @ [i]) then
                 (if is_dir d (script_dir e @ [i]) then d (script_dir e @ i # rest)
                  else if rest = [] then d (script_dir e @ [i]) else old p)
               else old p)
          | _ \<Rightarrow> old p)"

section \<open>A sample project\<close>

text \<open>
  A project directory \<open>/home/proj\<close> holding a \<open>code\<close> directory with one file, a
  \<open>README.md\<close> and a \<open>package.json\<close>; the other entries of the include list are
  missing.  The parser knows the one metadata text of the sample.
\<close>

definition sample_env :: env where
  "sample_env =
     \<lparr>script_dir = [''home'', ''proj''],
      json_load = (\<lambda>s. if s = ''{\"version\": \"2.0.0\"}''
                        then Some (JObj [(''version'', JStr ''2.0.0'')])
                        else if s = ''{}'' then Some (JObj [])
                        else if s = ''[1]'' then Some (JArr [JNum ''1'']) else None),
      json_error = (\<lambda>_. JSONDecodeError),
      zip_bytes = (\<lambda>_. ''PK''),
      py_str = (\<lambda>_. ''None''),
      size_kb = (\<lambda>_. ''0.3'')\<rparr>"

definition sample_disk :: tree where
  "sample_disk =
     [[''home''] \<mapsto> Dir,
      [''home'', ''proj''] \<mapsto> Dir,
      [''home'', ''proj'', ''code''] \<mapsto> Dir,
      [''home'', ''proj'', ''code'', ''widget.js''] \<mapsto> File ''osc'',
      [''home'', ''proj'', ''README.md''] \<mapsto> File ''read me'',
      [''home'', ''proj'', ''package.json''] \<mapsto> File ''{\"version\": \"2.0.0\"}'']"

definition sample_world :: world where
  "sample_world =
     \<lparr>disk = sample_disk, temp = None, console = [], faulty = [],
      refused = (\<lambda>_. None), leftover = None\<rparr>"

text \<open>The same project without its metadata file, and with one the parser rejects.\<close>

definition no_metadata_world :: world where
  "no_metadata_world =
     sample_world\<lparr>disk := (disk sample_world)([''home'', ''proj'', ''package.json''] := None)\<rparr>"

definition bad_metadata_world :: world where
  "bad_metadata_world =
     sample_world\<lparr>disk := (disk sample_world)([''home'', ''proj'', ''package.json''] \<mapsto> File ''{'')\<rparr>"

definition list_metadata_world :: world where
  "list_metadata_world =
     sample_world\<lparr>disk := (disk sample_world)([''home'', ''proj'', ''package.json''] \<mapsto> File ''[1]'')\<rparr>"

definition dir_metadata_world :: world where
  "dir_metadata_world =
     sample_world\<lparr>disk := (disk sample_world)([''home'', ''proj'', ''package.json''] \<mapsto> Dir)\<rparr>"

definition sample_archive :: tree where
  "sample_archive =
     members (snapshot sample_env sample_disk [zip_name ''1.1.1''] INCLUDE
                [[] \<mapsto> Dir, [zip_name ''1.1.1''] \<mapsto> Dir])
       [zip_name ''1.1.1'']"

definition faulty_world :: world where
  "faulty_world =
     sample_world
       \<lparr>disk := (disk sample_world)
                 ([''home'', ''PulsoidWidget-to-OSC-v1.1.1.zip''] \<mapsto> File ''old archive''),
        faulty := [[''home'', ''proj'', ''code'', ''widget.js'']]\<rparr>"

definition rebuilt_world :: world where
  "rebuilt_world =
     (fst (build_release sample_env ''1.1.1'' sample_world))
       \<lparr>disk := (disk (fst (build_release sample_env ''1.1.1'' sample_world)))
                 ([''home'', ''proj'', ''README.md''] \<mapsto> File ''read me again'',
                  [''home'', ''proj'', ''code'', ''widget.js''] := None)\<rparr>"

text \<open>The rebuilt project on a disk where no archive can be created.\<close>

definition full_disk_world :: world where
  "full_disk_world =
     \<lparr>disk = disk rebuilt_world, temp = None, console = [], faulty = [],
      refused = (\<lambda>a. case a of MakeArchive p \<Rightarrow> Some (OSError p) | _ \<Rightarrow> None),
      leftover = None\<rparr>"

section \<open>Paths and state: basic facts\<close>

lemma strip_prefix_Some_iff: "strip_prefix p q = Some r \<longleftrightarrow> q = p @ r"
proof (induction p arbitrary: q)
  case Nil
  show ?case by auto
next
  case (Cons x p)
  show ?case by (cases q) (auto simp: Cons.IH)
qed

lemma strip_prefix_append_same [simp]: "strip_prefix p (p @ r) = Some r"
  by (simp add: strip_prefix_Some_iff)

lemma strip_prefix_snoc_same [simp]: "strip_prefix (p @ [i]) (p @ i # r) = Some r"
  by (simp add: strip_prefix_Some_iff)

lemma under_iff: "under d p \<longleftrightarrow> (\<exists>r. p = d @ r)"
  by (auto simp: under_def strip_prefix_Some_iff split: option.splits)

lemma strip_prefix_snoc:
  "strip_prefix (tp @ [i]) p = Some rest \<longleftrightarrow> strip_prefix tp p = Some (i # rest)"
  by (simp add: strip_prefix_Some_iff)

lemma INCLUDE_plain: "i \<in> set INCLUDE \<Longrightarrow> pjoin p i = p @ [i]"
  by (auto simp: INCLUDE_def pjoin_def parts_def)

lemma print_fields [simp]:
  "disk (print s w) = disk w" "temp (print s w) = temp w"
  "faulty (print s w) = faulty w" "console (print s w) = console w @ [s]"
  "refused (print s w) = refused w" "leftover (print s w) = leftover w"
  "temp_lookup (print s w) = temp_lookup w"
  by (simp_all add: print_def temp_lookup_def fun_eq_iff)

lemma upd_temp_fields [simp]:
  "disk (upd_temp f w) = disk w" "faulty (upd_temp f w) = faulty w"
  "console (upd_temp f w) = console w"
  "refused (upd_temp f w) = refused w" "leftover (upd_temp f w) = leftover w"
  "temp (upd_temp f w) = map_option f (temp w)"
  by (simp_all add: upd_temp_def)

lemma temp_lookup_Some: "temp w = Some y \<Longrightarrow> temp_lookup w = y"
  by (rule ext) (simp add: temp_lookup_def)

lemma temp_lookup_upd:
  assumes "temp w \<noteq> None"
  shows "temp_lookup (upd_temp f w) = f (temp_lookup w)"
proof -
  from assms obtain y where y: "temp w = Some y" by auto
  have "temp (upd_temp f w) = Some (f y)" by (simp add: y)
  then have "temp_lookup (upd_temp f w) = f y" by (rule temp_lookup_Some)
  then show ?thesis by (simp add: temp_lookup_Some[OF y])
qed

lemma not_blocked:
  assumes "\<not> (\<exists>q \<in> set (faulty w). exists (disk w) q \<and> (under src q \<or> under q src))"
  shows "\<not> blocked w (src @ rest)"
  using assms unfolding blocked_def under_iff
  by (metis append_eq_append_conv2)

lemma copytree_ok:
  assumes "copytree src dst w = (w1, Inr u)" and "temp w \<noteq> None"
  shows "disk w1 = disk w" "faulty w1 = faulty w" "console w1 = console w" "temp w1 \<noteq> None"
    "temp_lookup w1 =
       (\<lambda>p. case strip_prefix dst p of None \<Rightarrow> temp_lookup w p | Some rest \<Rightarrow> disk w (src @ rest))"
proof -
  have nf: "\<not> (\<exists>q \<in> set (faulty w). exists (disk w) q \<and> (under src q \<or> under q src))"
    using assms(1) by (auto simp: copytree_def split: if_splits option.splits)
  have w1: "w1 = upd_temp
           (\<lambda>m p. case strip_prefix dst p of
                    None \<Rightarrow> m p
                  | Some rest \<Rightarrow> (if blocked w (src @ rest) then m p else disk w (src @ rest))) w"
    using assms(1) by (auto simp: copytree_def split: if_splits option.splits)
  show "disk w1 = disk w" "faulty w1 = faulty w" "console w1 = console w" "temp w1 \<noteq> None"
    using assms(2) by (simp_all add: w1)
  show "temp_lookup w1 =
       (\<lambda>p. case strip_prefix dst p of None \<Rightarrow> temp_lookup w p | Some rest \<Rightarrow> disk w (src @ rest))"
    using assms(2) not_blocked[OF nf]
    by (simp add: w1 temp_lookup_upd fun_eq_iff split: option.splits)
qed

lemma copy2_ok:
  assumes "copy2 src dst w = (w1, Inr u)" and "temp w \<noteq> None"
  shows "disk w1 = disk w" "faulty w1 = faulty w" "console w1 = console w" "temp w1 \<noteq> None"
    "temp_lookup w1 = (temp_lookup w)(dst := disk w src)" "exists (disk w) src"
  using assms
  by (auto simp: copy2_def temp_lookup_upd exists_def split: option.splits if_splits)

lemma snapshot_Nil [simp]: "snapshot e d tp [] old = old"
  by (auto simp: snapshot_def fun_eq_iff split: option.splits list.splits)

lemma snapshot_Cons_missing:
  "\<not> exists d (script_dir e @ [i]) \<Longrightarrow> snapshot e d tp (i # items) old = snapshot e d tp items old"
  by (auto simp: snapshot_def fun_eq_iff split: option.splits list.splits)

lemma snapshot_Cons_dir:
  "is_dir d (script_dir e @ [i]) \<Longrightarrow>
   snapshot e d tp (i # items) old =
   snapshot e d tp items
     (\<lambda>p. case strip_prefix (tp @ [i]) p of None \<Rightarrow> old p | Some rest \<Rightarrow> d ((script_dir e @ [i]) @ rest))"
  by (auto simp: snapshot_def fun_eq_iff strip_prefix_Some_iff is_dir_def exists_def
      split: option.splits list.splits node.splits)

lemma snapshot_Cons_file:
  "exists d (script_dir e @ [i]) \<Longrightarrow> \<not> is_dir d (script_dir e @ [i]) \<Longrightarrow>
   snapshot e d tp (i # items) old =
   snapshot e d tp items (old(tp @ [i] := d (script_dir e @ [i])))"
  by (auto simp: snapshot_def fun_eq_iff strip_prefix_Some_iff
      split: option.splits list.splits)

lemma copy_items_ok:
  assumes "copy_items e tp items w = (w', Inr u)" and "temp w \<noteq> None"
    and "\<forall>i \<in> set items. \<forall>p. pjoin p i = p @ [i]"
  shows "disk w' = disk w \<and> faulty w' = faulty w \<and> temp w' \<noteq> None \<and>
         temp_lookup w' = snapshot e (disk w) tp items (temp_lookup w)"
  using assms
proof (induction items arbitrary: w)
  case Nil
  then show ?case by simp
next
  case (Cons i items)
  have pl: "pjoin (script_dir e) i = script_dir e @ [i]" "pjoin tp i = tp @ [i]"
    using Cons.prems(3) by simp_all
  have rest: "\<forall>i \<in> set items. \<forall>p. pjoin p i = p @ [i]"
    using Cons.prems(3) by simp
  show ?case
  proof (cases "exists (disk w) (script_dir e @ [i])")
    case False
    then have "copy_items e tp items (print (''[WARN] Missing: '' @ i) w) = (w', Inr u)"
      using Cons.prems(1) by (simp add: pl)
    from Cons.IH[OF this _ rest] Cons.prems(2) False show ?thesis
      by (simp add: snapshot_Cons_missing)
  next
    case ex: True
    show ?thesis
    proof (cases "is_dir (disk w) (script_dir e @ [i])")
      case True
      from Cons.prems(1) ex True obtain w1 u1 where
        c: "copytree (script_dir e @ [i]) (tp @ [i]) w = (w1, Inr u1)" and
        r: "copy_items e tp items (print (''[OK] Copied directory: '' @ i) w1) = (w', Inr u)"
        by (auto simp: pl bind_def split: prod.splits sum.splits)
      note ok = copytree_ok[OF c Cons.prems(2)]
      from Cons.IH[OF r _ rest] ok True show ?thesis
        by (simp add: snapshot_Cons_dir)
    next
      case False
      from Cons.prems(1) ex False obtain w1 u1 where
        c: "copy2 (script_dir e @ [i]) (tp @ [i]) w = (w1, Inr u1)" and
        r: "copy_items e tp items (print (''[OK] Copied file: '' @ i) w1) = (w', Inr u)"
        by (auto simp: pl bind_def split: prod.splits sum.splits)
      note ok = copy2_ok[OF c Cons.prems(2)]
      from Cons.IH[OF r _ rest] ok ex False show ?thesis
        by (simp add: snapshot_Cons_file fun_upd_def)
    qed
  qed
qed

section \<open>Splitting a version into path components\<close>

lemma split_sep_nonempty [simp]: "split_sep s \<noteq> []"
  by (induction s) (auto simp: Let_def)

lemma split_sep_plain: "CHR ''/'' \<notin> set s \<Longrightarrow> split_sep s = [s]"
  by (induction s) (auto simp: Let_def)

lemma split_sep_append_plain:
  "CHR ''/'' \<notin> set t \<Longrightarrow>
   split_sep (s @ t) = butlast (split_sep s) @ [last (split_sep s) @ t]"
proof (induction s)
  case Nil
  then show ?case by (simp add: split_sep_plain)
next
  case (Cons c s)
  then show ?case
    by (cases "split_sep s") (auto simp: Let_def)
qed

lemma split_sep_plain_append:
  "CHR ''/'' \<notin> set a \<Longrightarrow>
   split_sep (a @ s) = (a @ hd (split_sep s)) # tl (split_sep s)"
  by (induction a) (auto simp: Let_def)

lemma split_sep_length: "CHR ''/'' \<in> set s \<Longrightarrow> 2 \<le> length (split_sep s)"
proof (induction s)
  case Nil
  then show ?case by simp
next
  case (Cons c s)
  then show ?case
    by (cases "split_sep s") (auto simp: Let_def)
qed

lemma parts_zip_name:
  "parts (zip_name v) =
     (''PulsoidWidget-to-OSC-v'' @ hd (split_sep v)) # filter (\<lambda>c. c \<noteq> [] \<and> c \<noteq> ''.'') (tl (split_sep v))"
proof -
  have "split_sep (''PulsoidWidget-to-OSC-v'' @ v) =
        (''PulsoidWidget-to-OSC-v'' @ hd (split_sep v)) # tl (split_sep v)"
    by (rule split_sep_plain_append) simp
  then show ?thesis by (simp add: parts_def zip_name_def del: split_sep.simps)
qed



lemma split_sep_two_parts: assumes sl: "CHR ''/'' \<in> set v" shows "\<exists>x y ys. split_sep v = x # ys @ [y]"
proof -
  have "2 \<le> length (split_sep v)" by (rule split_sep_length[OF sl])
  then obtain x r where r: "split_sep v = x # r" "r \<noteq> []"
    by (cases "split_sep v") (auto simp: Suc_le_eq numeral_2_eq_2)
  from r(2) have "r = butlast r @ [last r]" by simp
  with r(1) show ?thesis by metis
qed

lemma zip_name_plain:
  assumes "CHR ''/'' \<notin> set v"
  shows "parts (zip_name v) = [zip_name v]" "parts (zip_name v @ ''.zip'') = [zip_name v @ ''.zip'']"
proof -
  have "CHR ''/'' \<notin> set (zip_name v)" "CHR ''/'' \<notin> set (zip_name v @ ''.zip'')"
    using assms by (simp_all add: zip_name_def)
  then have "split_sep (zip_name v) = [zip_name v]"
     "split_sep (zip_name v @ ''.zip'') = [zip_name v @ ''.zip'']"
    by (auto intro: split_sep_plain simp del: split_sep.simps)
  moreover have "zip_name v \<noteq> []" "zip_name v \<noteq> ''.''" by (simp_all add: zip_name_def)
  ultimately show "parts (zip_name v) = [zip_name v]" "parts (zip_name v @ ''.zip'') = [zip_name v @ ''.zip'']"
    by (simp_all add: parts_def del: split_sep.simps)
qed

lemma version_plain:
  assumes "parts (zip_name v) = [c]"
    and "parts (zip_name v @ ''.zip'') = [c @ ''.zip'']"
  shows "CHR ''/'' \<notin> set v"
proof
  assume sl: "CHR ''/'' \<in> set v"
  let ?sv = "split_sep v"
  from split_sep_two_parts[OF sl] obtain x y ys where sv: "?sv = x # ys @ [y]"
    by blast
  have "split_sep (v @ ''.zip'') = butlast ?sv @ [last ?sv @ ''.zip'']"
    by (rule split_sep_append_plain) simp
  then have s': "split_sep (v @ ''.zip'') = x # ys @ [y @ ''.zip'']"
    by (simp add: sv butlast_append)
  have "split_sep (''PulsoidWidget-to-OSC-v'' @ (v @ ''.zip'')) =
        (''PulsoidWidget-to-OSC-v'' @ hd (split_sep (v @ ''.zip''))) # tl (split_sep (v @ ''.zip''))"
    by (rule split_sep_plain_append) simp
  then have "parts (zip_name v @ ''.zip'') =
      (''PulsoidWidget-to-OSC-v'' @ x) # filter (\<lambda>c. c \<noteq> [] \<and> c \<noteq> ''.'') ys @ [y @ ''.zip'']"
    by (simp add: parts_def zip_name_def s' del: split_sep.simps)
  with assms(2) show False by simp
qed

section \<open>A run that returns\<close>

lemma bind_Inr:
  "bind r k = (w', Inr y) \<longleftrightarrow> (\<exists>w1 x. r = (w1, Inr x) \<and> k x w1 = (w', Inr y))"
  by (auto simp: bind_def split: prod.splits sum.splits)

lemma bind_Inl:
  "bind r k = (w', Inl err) \<longleftrightarrow>
     r = (w', Inl err) \<or> (\<exists>w1 x. r = (w1, Inr x) \<and> k x w1 = (w', Inl err))"
  by (auto simp: bind_def split: prod.splits sum.splits)

lemma mkdir_fresh:
  assumes "mkdir_temp tp (w\<lparr>temp := Some [[] \<mapsto> Dir]\<rparr>) = (w1, Inr u)"
  shows "\<exists>c. tp = [c]" "w1 = w\<lparr>temp := Some [[] \<mapsto> Dir, tp \<mapsto> Dir]\<rparr>"
proof -
  from assms have ne: "tp \<noteq> []" and par: "butlast tp = []"
    by (auto simp: mkdir_temp_def temp_lookup_def exists_def parent_def
        split: if_splits option.splits node.splits)
  then show "\<exists>c. tp = [c]"
    by (metis append_butlast_last_id append_Nil)
  from assms show "w1 = w\<lparr>temp := Some [[] \<mapsto> Dir, tp \<mapsto> Dir]\<rparr>"
    by (auto simp: mkdir_temp_def temp_lookup_def exists_def parent_def upd_temp_def
        split: if_splits option.splits node.splits)
qed

lemma unlink_ok:
  assumes "unlink p w = (w1, Inr u)"
  shows "w1 = w\<lparr>disk := (disk w)(p := None)\<rparr>"
  using assms by (auto simp: unlink_def split: option.splits node.splits if_splits)

lemma make_archive_ok:
  assumes "make_archive base bd w = (w1, Inr u)"
  shows "w1 = w\<lparr>disk := (disk w)(archive_file base \<mapsto> Zip (members (temp_lookup w) (parts bd)))\<rparr>"
  using assms by (auto simp: make_archive_def Let_def split: if_splits option.splits)

lemma zip_phase_ok:
  assumes "zip_phase e v w = (w1, Inr u)"
  shows "w1 = w\<lparr>disk := (disk w)(zip_path e v := None,
            archive_file (pjoin (output_dir e) (zip_name v)) \<mapsto>
              Zip (members (temp_lookup w) (parts (zip_name v))))\<rparr>"
proof -
  from assms obtain w2 u2 where
    a: "(if exists (disk w) (zip_path e v) then unlink (zip_path e v) w else (w, Inr ())) = (w2, Inr u2)"
    and b: "make_archive (pjoin (output_dir e) (zip_name v)) (zip_name v) w2 = (w1, Inr u)"
    unfolding zip_phase_def bind_Inr by blast
  have w2: "w2 = w\<lparr>disk := (disk w)(zip_path e v := None)\<rparr>"
  proof (cases "exists (disk w) (zip_path e v)")
    case True
    with a show ?thesis by (simp add: unlink_ok)
  next
    case False
    then have "disk w (zip_path e v) = None" by (simp add: exists_def split: option.splits)
    then have "(disk w)(zip_path e v := None) = disk w" by (simp add: fun_eq_iff)
    with a False show ?thesis by simp
  qed
  have "temp_lookup w2 = temp_lookup w" by (simp add: w2 temp_lookup_def fun_eq_iff)
  with make_archive_ok[OF b] show ?thesis by (simp add: w2)
qed

lemma pjoin_zip_name:
  "pjoin p (zip_name v) = p @ parts (zip_name v)"
  "pjoin p (zip_name v @ s) = p @ parts (zip_name v @ s)"
  by (simp_all add: pjoin_def zip_name_def)

lemma with_temporary_directory_Inr:
  "with_temporary_directory body w = (w', Inr x) \<longleftrightarrow>
     (\<exists>w1. body (w\<lparr>temp := Some [[] \<mapsto> Dir]\<rparr>) = (w1, Inr x) \<and> w' = w1\<lparr>temp := None\<rparr>)"
  by (auto simp: with_temporary_directory_def split: prod.splits)

lemma build_release_ok:
  assumes "build_release e v w = (w', Inr p)"
  shows "p = zip_path e v" and "CHR ''/'' \<notin> set v"
    and "zip_path e v = output_dir e @ [zip_name v @ ''.zip'']"
    and "temp w' = None" and "faulty w' = faulty w"
    and "disk w' = (disk w)(zip_path e v \<mapsto>
           Zip (members (snapshot e (disk w) [zip_name v] INCLUDE [[] \<mapsto> Dir, [zip_name v] \<mapsto> Dir])
                  [zip_name v]))"
proof -
  define w0 where "w0 = announce e v w"
  define tp where "tp = parts (zip_name v)"
  define wA where "wA = w0\<lparr>temp := Some [[] \<mapsto> Dir]\<rparr>"
  from assms obtain w2 x where
    wt: "with_temporary_directory
              (\<lambda>w1. bind (copy_phase e v w1) (\<lambda>_. zip_phase e v)) w0 = (w2, Inr x)"
    and fin: "(let w3 = print (''[BUILD] Done! Created: '' @ str_path (zip_path e v)) w2 in
           case disk w3 (zip_path e v) of
             None \<Rightarrow> (w3, Inl (FileNotFoundError (zip_path e v)))
           | Some n \<Rightarrow> (print (''[BUILD] Size: '' @ size_kb e n @ '' KB'') w3,
                        Inr (zip_path e v))) = (w', Inr p)"
    unfolding build_release_def Let_def w0_def bind_Inr by blast
  from wt obtain wb where
    body: "bind (copy_phase e v wA) (\<lambda>_. zip_phase e v) = (wb, Inr x)"
    and w2: "w2 = wb\<lparr>temp := None\<rparr>"
    unfolding with_temporary_directory_Inr wA_def by blast
  from body obtain wC u where
    cp: "copy_phase e v wA = (wC, Inr u)" and zp: "zip_phase e v wC = (wb, Inr x)"
    unfolding bind_Inr by blast
  from cp obtain wB u' where
    mk: "mkdir_temp tp wA = (wB, Inr u')" and ci: "copy_items e tp INCLUDE wB = (wC, Inr u)"
    unfolding copy_phase_def Let_def bind_Inr pjoin_zip_name tp_def by auto
  from mkdir_fresh[OF mk[unfolded wA_def]] obtain c where
    tpc: "tp = [c]" and wB: "wB = w0\<lparr>temp := Some [[] \<mapsto> Dir, tp \<mapsto> Dir]\<rparr>"
    by blast
  have wB_f: "disk wB = disk w" "faulty wB = faulty w" "temp wB \<noteq> None"
    "temp_lookup wB = [[] \<mapsto> Dir, tp \<mapsto> Dir]"
    by (simp_all add: wB w0_def announce_def temp_lookup_Some)
  from copy_items_ok[OF ci wB_f(3)] INCLUDE_plain
  have wC: "disk wC = disk w" "faulty wC = faulty w"
    "temp_lookup wC = snapshot e (disk w) tp INCLUDE [[] \<mapsto> Dir, tp \<mapsto> Dir]"
    by (simp_all add: wB_f)
  note wb = zip_phase_ok[OF zp]
  let ?target = "archive_file (pjoin (output_dir e) (zip_name v))"
  have dwb: "disk wb = (disk w)(zip_path e v := None, ?target \<mapsto>
      Zip (members (snapshot e (disk w) tp INCLUDE [[] \<mapsto> Dir, tp \<mapsto> Dir]) tp))"
    by (subst wb) (simp add: wC tp_def)
  from fin have p: "p = zip_path e v" and ex: "disk w2 (zip_path e v) \<noteq> None"
    and w': "w' = print (''[BUILD] Size: '' @ size_kb e (the (disk w2 (zip_path e v))) @ '' KB'')
        (print (''[BUILD] Done! Created: '' @ str_path (zip_path e v)) w2)"
    by (auto simp: Let_def split: option.splits)
  have dw2: "disk w2 = disk wb" by (simp add: w2)
  from ex have eq: "zip_path e v = ?target"
    by (auto simp: dw2 dwb split: if_splits)
  have tgt: "?target = output_dir e @ [c @ ''.zip'']"
    using tpc by (simp add: pjoin_zip_name archive_file_def tp_def)
  have "zip_path e v = output_dir e @ parts (zip_name v @ ''.zip'')"
    by (simp add: zip_path_def pjoin_zip_name)
  with eq tgt have "parts (zip_name v @ ''.zip'') = [c @ ''.zip'']" by simp
  with tpc have plain: "CHR ''/'' \<notin> set v"
    unfolding tp_def by (rule version_plain)
  note zn = zip_name_plain[OF plain]
  have tp: "tp = [zip_name v]" by (simp add: tp_def zn)
  show "p = zip_path e v" by (rule p)
  show "CHR ''/'' \<notin> set v" by (rule plain)
  show "zip_path e v = output_dir e @ [zip_name v @ ''.zip'']"
    by (simp add: zip_path_def pjoin_zip_name zn)
  show "temp w' = None" by (simp add: w' w2)
  show "faulty w' = faulty w" by (simp add: w' w2 wb wC)
  show "disk w' = (disk w)(zip_path e v \<mapsto>
           Zip (members (snapshot e (disk w) [zip_name v] INCLUDE [[] \<mapsto> Dir, [zip_name v] \<mapsto> Dir])
                  [zip_name v]))"
    using eq by (simp add: w' dw2 dwb tp)
qed

section \<open>The sample run\<close>

lemma sample_run:
  "snd (build_release sample_env ''1.1.1'' sample_world) =
     Inr [''home'', ''PulsoidWidget-to-OSC-v1.1.1.zip'']"
  by code_simp

lemma sample_returns:
  "build_release sample_env ''1.1.1'' sample_world =
     (fst (build_release sample_env ''1.1.1'' sample_world),
      Inr [''home'', ''PulsoidWidget-to-OSC-v1.1.1.zip''])"
  by (simp add: prod_eq_iff sample_run)

lemma with_temporary_directory_temp:
  "temp (fst (with_temporary_directory body w)) = None"
  by (simp add: with_temporary_directory_def split: prod.splits)

lemma temp_lookup_None: "temp w = None \<Longrightarrow> temp_lookup w p = None"
  by (simp add: temp_lookup_def)

lemma bind_temp:
  assumes "temp (fst r) = None"
    and "\<And>x w1. temp w1 = None \<Longrightarrow> temp (fst (k x w1)) = None"
  shows "temp (fst (bind r k)) = None"
  using assms by (cases r) (auto simp: bind_def split: sum.splits)

lemma archive_of_run:
  assumes "build_release e v w = (w', Inr p)"
  shows "disk w' p = Some (Zip (members
           (snapshot e (disk w) [zip_name v] INCLUDE [[] \<mapsto> Dir, [zip_name v] \<mapsto> Dir])
           [zip_name v]))"
  using build_release_ok(1,6)[OF assms] by simp

lemma sample_archive_on_disk:
  "disk (fst (build_release sample_env ''1.1.1'' sample_world))
     [''home'', ''PulsoidWidget-to-OSC-v1.1.1.zip''] = Some (Zip sample_archive)"
  using archive_of_run[OF sample_returns]
  by (simp add: sample_archive_def sample_world_def)

lemma sample_archive_readme:
  "sample_archive [''PulsoidWidget-to-OSC-v1.1.1'', ''README.md''] = Some (File ''read me'')"
  by (simp add: sample_archive_def members_def under_def snapshot_def zip_name_def INCLUDE_def
      sample_env_def sample_disk_def exists_def is_dir_def)

section \<open>Facts about the version\<close>

lemma package_path: "pjoin p ''package.json'' = p @ [''package.json'']"
  by (simp add: pjoin_def parts_def)

lemma resolve_version_argument:
  "1 < length argv \<Longrightarrow> resolve_version e argv w = (w, Inr (argv ! 1))"
  by (simp add: resolve_version_def)

section \<open>The disk during the copy phase\<close>

lemma bind_fst:
  assumes "P (fst r)" and "\<And>x w1. P w1 \<Longrightarrow> P (fst (k x w1))"
  shows "P (fst (bind r k))"
  using assms by (cases r) (auto simp: bind_def split: sum.splits)

lemma announce_fields:
  "disk (announce e v w) = disk w" "temp (announce e v w) = temp w"
  "faulty (announce e v w) = faulty w" "refused (announce e v w) = refused w"
  "leftover (announce e v w) = leftover w"
  by (simp_all add: announce_def)

lemma copytree_disk: "disk (fst (copytree src dst w)) = disk w"
  by (simp add: copytree_def split: option.splits)

lemma copy2_disk: "disk (fst (copy2 src dst w)) = disk w"
  by (simp add: copy2_def split: option.splits)

lemma mkdir_temp_disk: "disk (fst (mkdir_temp p w)) = disk w"
  by (simp add: mkdir_temp_def split: option.splits node.splits)

lemma copy_items_disk: "disk (fst (copy_items e tp items w)) = disk w"
proof (induction items arbitrary: w)
  case Nil
  show ?case by simp
next
  case (Cons i items)
  have a: "disk (fst (bind (copytree (pjoin (script_dir e) i) (pjoin tp i) w)
          (\<lambda>_ w1. copy_items e tp items (print (''[OK] Copied directory: '' @ i) w1)))) = disk w"
    by (rule bind_fst[where P = "\<lambda>w'. disk w' = disk w"]) (simp_all add: copytree_disk Cons.IH)
  have b: "disk (fst (bind (copy2 (pjoin (script_dir e) i) (pjoin tp i) w)
          (\<lambda>_ w1. copy_items e tp items (print (''[OK] Copied file: '' @ i) w1)))) = disk w"
    by (rule bind_fst[where P = "\<lambda>w'. disk w' = disk w"]) (simp_all add: copy2_disk Cons.IH)
  show ?case
    using a b by (simp add: Let_def Cons.IH)
qed

lemma copy_phase_disk: "disk (fst (copy_phase e v w)) = disk w"
  unfolding copy_phase_def Let_def
  by (rule bind_fst[where P = "\<lambda>w'. disk w' = disk w"]) (simp_all add: mkdir_temp_disk copy_items_disk)

lemma faulty_copy:
  "snd (copy_phase sample_env ''1.1.1''
          ((announce sample_env ''1.1.1'' faulty_world)\<lparr>temp := Some [[] \<mapsto> Dir]\<rparr>)) =
     Inl (ShutilError [''home'', ''proj'', ''code''])"
  by code_simp

section \<open>The archive does not depend on what was at its path\<close>

lemma snapshot_cong:
  assumes "\<And>i rest. i \<in> set items \<Longrightarrow> d1 (script_dir e @ i # rest) = d2 (script_dir e @ i # rest)"
  shows "snapshot e d1 tp items old = snapshot e d2 tp items old"
proof (rule ext)
  fix p
  show "snapshot e d1 tp items old p = snapshot e d2 tp items old p"
  proof (cases "strip_prefix tp p")
    case None
    then show ?thesis by (simp add: snapshot_def)
  next
    case (Some r)
    show ?thesis
    proof (cases r)
      case Nil
      with Some show ?thesis by (simp add: snapshot_def)
    next
      case (Cons i rest)
      show ?thesis
      proof (cases "i \<in> set items")
        case False
        with Some Cons show ?thesis by (simp add: snapshot_def)
      next
        case True
        from assms[OF True, of "[]"] assms[OF True, of rest]
        show ?thesis
          by (simp add: snapshot_def Some Cons exists_def is_dir_def)
      qed
    qed
  qed
qed

lemma zip_not_included: "zip_name v @ ''.zip'' \<notin> set INCLUDE"
  by (simp add: zip_name_def INCLUDE_def)

lemma target_not_source:
  assumes "i \<in> set INCLUDE"
  shows "output_dir e @ [zip_name v @ ''.zip''] \<noteq> script_dir e @ i # rest"
proof (cases "script_dir e = []")
  case True
  with assms zip_not_included[of v] show ?thesis
    by (auto simp: output_dir_def parent_def)
next
  case False
  then have "length (output_dir e @ [zip_name v @ ''.zip'']) = length (script_dir e)"
    by (simp add: output_dir_def parent_def)
  then show ?thesis
    by (metis length_append length_Cons add_Suc_right le_add1 not_less_eq_eq)
qed

section \<open>When the copy loop succeeds\<close>


lemma copytree_refused:
  assumes "copytree src dst w = (w1, r)"
  shows "refused w1 = refused w" "leftover w1 = leftover w"
  using assms by (auto simp: copytree_def split: if_splits option.splits)

lemma copy2_refused:
  assumes "copy2 src dst w = (w1, r)"
  shows "refused w1 = refused w" "leftover w1 = leftover w"
  using assms by (auto simp: copy2_def split: if_splits option.splits)





section \<open>When the whole run succeeds\<close>




lemma bind_simps:
  "bind (w1, Inr x) k = k x w1" "bind (w1, Inl err) k = (w1, Inl err)"
  by (simp_all add: bind_def)


lemma copy_items_refused: "refused (fst (copy_items e tp items w)) = refused w"
proof (induction items arbitrary: w)
  case Nil
  show ?case by simp
next
  case (Cons i items)
  have a: "refused (fst (bind (copytree (pjoin (script_dir e) i) (pjoin tp i) w)
          (\<lambda>_ w1. copy_items e tp items (print (''[OK] Copied directory: '' @ i) w1)))) = refused w"
  proof (rule bind_fst[where P = "\<lambda>w'. refused w' = refused w"])
    show "refused (fst (copytree (pjoin (script_dir e) i) (pjoin tp i) w)) = refused w"
      by (rule copytree_refused(1)) (rule prod.collapse[symmetric])
  qed (simp add: Cons.IH)
  have b: "refused (fst (bind (copy2 (pjoin (script_dir e) i) (pjoin tp i) w)
          (\<lambda>_ w1. copy_items e tp items (print (''[OK] Copied file: '' @ i) w1)))) = refused w"
  proof (rule bind_fst[where P = "\<lambda>w'. refused w' = refused w"])
    show "refused (fst (copy2 (pjoin (script_dir e) i) (pjoin tp i) w)) = refused w"
      by (rule copy2_refused(1)) (rule prod.collapse[symmetric])
  qed (simp add: Cons.IH)
  show ?case
    using a b by (simp add: Let_def Cons.IH)
qed



section \<open>The second run\<close>

lemma copy_items_leftover: "leftover (fst (copy_items e tp items w)) = leftover w"
proof (induction items arbitrary: w)
  case Nil
  show ?case by simp
next
  case (Cons i items)
  have a: "leftover (fst (bind (copytree (pjoin (script_dir e) i) (pjoin tp i) w)
          (\<lambda>_ w1. copy_items e tp items (print (''[OK] Copied directory: '' @ i) w1)))) = leftover w"
  proof (rule bind_fst[where P = "\<lambda>w'. leftover w' = leftover w"])
    show "leftover (fst (copytree (pjoin (script_dir e) i) (pjoin tp i) w)) = leftover w"
      by (rule copytree_refused(2)) (rule prod.collapse[symmetric])
  qed (simp add: Cons.IH)
  have b: "leftover (fst (bind (copy2 (pjoin (script_dir e) i) (pjoin tp i) w)
          (\<lambda>_ w1. copy_items e tp items (print (''[OK] Copied file: '' @ i) w1)))) = leftover w"
  proof (rule bind_fst[where P = "\<lambda>w'. leftover w' = leftover w"])
    show "leftover (fst (copy2 (pjoin (script_dir e) i) (pjoin tp i) w)) = leftover w"
      by (rule copy2_refused(2)) (rule prod.collapse[symmetric])
  qed (simp add: Cons.IH)
  show ?case
    using a b by (simp add: Let_def Cons.IH)
qed

lemma copy_phase_ok:
  assumes "copy_phase e v ((announce e v w)\<lparr>temp := Some [[] \<mapsto> Dir]\<rparr>) = (wC, Inr u)"
    and "CHR ''/'' \<notin> set v"
  shows "disk wC = disk w" and "refused wC = refused w" and "leftover wC = leftover w"
    and "temp_lookup wC =
           snapshot e (disk w) [zip_name v] INCLUDE [[] \<mapsto> Dir, [zip_name v] \<mapsto> Dir]"
proof -
  note zn = zip_name_plain[OF assms(2)]
  from assms(1) obtain wB u' where
    mk: "mkdir_temp [zip_name v] ((announce e v w)\<lparr>temp := Some [[] \<mapsto> Dir]\<rparr>) = (wB, Inr u')"
    and ci: "copy_items e [zip_name v] INCLUDE wB = (wC, Inr u)"
    unfolding copy_phase_def Let_def bind_Inr pjoin_zip_name by (auto simp: zn)
  have wB: "wB = (announce e v w)\<lparr>temp := Some [[] \<mapsto> Dir, [zip_name v] \<mapsto> Dir]\<rparr>"
    by (rule mkdir_fresh(2)[OF mk])
  have wB_f: "disk wB = disk w" "refused wB = refused w" "leftover wB = leftover w"
    "temp wB \<noteq> None" "temp_lookup wB = [[] \<mapsto> Dir, [zip_name v] \<mapsto> Dir]"
    by (simp_all add: wB announce_fields temp_lookup_Some)
  have plain: "\<forall>i \<in> set INCLUDE. \<forall>p. pjoin p i = p @ [i]"
    by (simp add: INCLUDE_plain)
  from copy_items_ok[OF ci wB_f(4) plain]
  show "disk wC = disk w"
    and "temp_lookup wC =
           snapshot e (disk w) [zip_name v] INCLUDE [[] \<mapsto> Dir, [zip_name v] \<mapsto> Dir]"
    by (simp_all add: wB_f)
  show "refused wC = refused w"
    using copy_items_refused[of e "[zip_name v]" INCLUDE wB] by (simp add: ci wB_f)
  show "leftover wC = leftover w"
    using copy_items_leftover[of e "[zip_name v]" INCLUDE wB] by (simp add: ci wB_f)
qed

lemma build_release_zip_phase:
  assumes "copy_phase e v ((announce e v w)\<lparr>temp := Some [[] \<mapsto> Dir]\<rparr>) = (wC, Inr u)"
    and "zip_phase e v wC = (wD, r)"
  shows "build_release e v w =
     bind (wD\<lparr>temp := None\<rparr>, r)
        (\<lambda>_ w2.
           let w3 = print (''[BUILD] Done! Created: '' @ str_path (zip_path e v)) w2 in
           case disk w3 (zip_path e v) of
             None \<Rightarrow> (w3, Inl (FileNotFoundError (zip_path e v)))
           | Some n \<Rightarrow> (print (''[BUILD] Size: '' @ size_kb e n @ '' KB'') w3,
                        Inr (zip_path e v)))"
proof -
  have "with_temporary_directory
          (\<lambda>w1. bind (copy_phase e v w1) (\<lambda>_. zip_phase e v)) (announce e v w) =
        (wD\<lparr>temp := None\<rparr>, r)"
    by (simp add: with_temporary_directory_def assms bind_simps)
  then show ?thesis by (simp add: build_release_def Let_def)
qed

lemma full_disk_old_archive:
  "exists (disk full_disk_world) [''home'', ''PulsoidWidget-to-OSC-v1.1.1.zip'']"
  by code_simp

lemma full_disk_copy:
  "snd (copy_phase sample_env ''1.1.1''
          ((announce sample_env ''1.1.1'' full_disk_world)\<lparr>temp := Some [[] \<mapsto> Dir]\<rparr>)) = Inr ()"
  by code_simp

lemma full_disk_unlink:
  "snd (unlink [''home'', ''PulsoidWidget-to-OSC-v1.1.1.zip'']
     (fst (copy_phase sample_env ''1.1.1''
          ((announce sample_env ''1.1.1'' full_disk_world)\<lparr>temp := Some [[] \<mapsto> Dir]\<rparr>)))) = Inr ()"
  by code_simp

lemma full_disk_make_archive:
  "snd (make_archive (pjoin (output_dir sample_env) (zip_name ''1.1.1'')) (zip_name ''1.1.1'')
     ((fst (copy_phase sample_env ''1.1.1''
          ((announce sample_env ''1.1.1'' full_disk_world)\<lparr>temp := Some [[] \<mapsto> Dir]\<rparr>)))
        \<lparr>disk := (disk full_disk_world)([''home'', ''PulsoidWidget-to-OSC-v1.1.1.zip''] := None)\<rparr>)) =
   Inl (OSError [''home'', ''PulsoidWidget-to-OSC-v1.1.1.zip''])"
  by code_simp

section \<open>The claims\<close>




text \<open>
  Claim C2.  For an entry of the include list that is on disk when the run starts, the
  entry itself, and for a directory everything in its tree, is a member of the archive of
  a run that returns, under the same path relative to the top-level directory as it has
  relative to the script's directory, with the same content.
\<close>

theorem included_files_archived:
  assumes "build_release e v w = (w', Inr p)" and "item \<in> set INCLUDE"
    and "disk w (script_dir e @ item # rest) = Some n"
    and "rest = [] \<or> is_dir (disk w) (script_dir e @ [item])"
  shows "\<exists>a. disk w' p = Some (Zip a) \<and>
             a ((''PulsoidWidget-to-OSC-v'' @ v) # item # rest) = Some n"
proof -
  let ?S = "snapshot e (disk w) [zip_name v] INCLUDE [[] \<mapsto> Dir, [zip_name v] \<mapsto> Dir]"
  have sp: "strip_prefix [zip_name v] (zip_name v # item # rest) = Some (item # rest)"
    by simp
  have ex: "exists (disk w) (script_dir e @ [item])"
    using assms(3,4) by (auto simp: exists_def is_dir_def split: option.splits)
  have "?S (zip_name v # item # rest) = Some n"
    using assms(2,3,4) ex unfolding snapshot_def sp by auto
  then have "members ?S [zip_name v] (zip_name v # item # rest) = Some n"
    by (simp add: members_def under_def)
  with archive_of_run[OF assms(1)] show ?thesis by (simp add: zip_name_def)
qed

theorem included_files_archived_witness:
  "\<exists>a. disk (fst (build_release sample_env ''1.1.1'' sample_world))
          [''home'', ''PulsoidWidget-to-OSC-v1.1.1.zip''] = Some (Zip a) \<and>
       a [''PulsoidWidget-to-OSC-v1.1.1'', ''code'', ''widget.js''] = Some (File ''osc'')"
proof -
  have item: "''code'' \<in> set INCLUDE" by (simp add: INCLUDE_def)
  have there: "disk sample_world (script_dir sample_env @ ''code'' # [''widget.js'']) = Some (File ''osc'')"
    by (simp add: sample_world_def sample_disk_def sample_env_def)
  have dir: "[''widget.js''] = [] \<or> is_dir (disk sample_world) (script_dir sample_env @ [''code''])"
    by (simp add: sample_world_def sample_disk_def sample_env_def is_dir_def)
  from included_files_archived[OF sample_returns item there dir] show ?thesis by simp
qed



text \<open>
  Claim C4.  After every run of \<open>build_release\<close>, whether it returned or raised, the
  temporary staging directory is gone, and nothing is found at any path inside it.
\<close>

theorem staging_directory_removed:
  "temp (fst (build_release e v w)) = None \<and> temp_lookup (fst (build_release e v w)) p = None"
proof -
  have "temp (fst (build_release e v w)) = None"
    unfolding build_release_def Let_def
  proof (rule bind_temp)
    show "temp (fst (with_temporary_directory
       (\<lambda>w1. bind (copy_phase e v w1) (\<lambda>_. zip_phase e v)) (announce e v w))) = None"
      by (rule with_temporary_directory_temp)
  next
    fix x :: unit and w1 :: world
    assume "temp w1 = None"
    then show "temp (fst (case disk (print (''[BUILD] Done! Created: '' @ str_path (zip_path e v)) w1)
             (zip_path e v) of
        None \<Rightarrow> (print (''[BUILD] Done! Created: '' @ str_path (zip_path e v)) w1,
                 Inl (FileNotFoundError (zip_path e v)))
      | Some n \<Rightarrow> (print (''[BUILD] Size: '' @ size_kb e n @ '' KB'')
                      (print (''[BUILD] Done! Created: '' @ str_path (zip_path e v)) w1),
                    Inr (zip_path e v)))) = None"
      by (simp split: option.splits)
  qed
  then show ?thesis by (simp add: temp_lookup_None)
qed

theorem staging_directory_removed_witness:
  "temp (fst (build_release sample_env ''1.1.1'' sample_world)) = None \<and>
   temp_lookup (fst (build_release sample_env ''1.1.1'' sample_world)) [''PulsoidWidget-to-OSC-v1.1.1''] = None"
  using staging_directory_removed[of sample_env "''1.1.1''" sample_world "[''PulsoidWidget-to-OSC-v1.1.1'']"]
  by simp

text \<open>
  Claim C5.  With a version argument on the command line, that string is the version,
  whatever the disk holds: two runs with the same arguments on any two worlds (the metadata
  file different, or missing) resolve the same version, build with it, and return the same
  archive path.
\<close>

theorem version_argument_verbatim:
  assumes "1 < length argv"
  shows "snd (resolve_version e argv w1) = Inr (argv ! 1) \<and>
         snd (resolve_version e argv w2) = Inr (argv ! 1) \<and>
         main e argv w1 = bind (build_release e (argv ! 1) w1) (\<lambda>_ w'. (w', Inr ())) \<and>
         main e argv w2 = bind (build_release e (argv ! 1) w2) (\<lambda>_ w'. (w', Inr ())) \<and>
         (\<forall>w1' w2' p1 p2.
            build_release e (argv ! 1) w1 = (w1', Inr p1) \<longrightarrow>
            build_release e (argv ! 1) w2 = (w2', Inr p2) \<longrightarrow> p1 = p2)"
proof -
  have "\<And>w1' w2' p1 p2.
            build_release e (argv ! 1) w1 = (w1', Inr p1) \<Longrightarrow>
            build_release e (argv ! 1) w2 = (w2', Inr p2) \<Longrightarrow> p1 = p2"
    by (auto dest: build_release_ok(1))
  then show ?thesis
    using assms by (simp add: resolve_version_argument main_def bind_def)
qed

theorem version_argument_verbatim_witness:
  "snd (resolve_version sample_env [''build.py'', ''9.9.9''] sample_world) = Inr ''9.9.9'' \<and>
   snd (resolve_version sample_env [''build.py'', ''9.9.9'']
          (sample_world\<lparr>disk := Map.empty\<rparr>)) = Inr ''9.9.9''"
  using version_argument_verbatim[of "[''build.py'', ''9.9.9'']" sample_env sample_world
      "sample_world\<lparr>disk := Map.empty\<rparr>"]
  by simp

text \<open>
  Claim C6.  Without a version argument, the version is the \<open>version\<close> field of the object
  parsed from \<open>package.json\<close> beside the script, and \<open>0.0.0\<close> when the object has no
  such field.
\<close>

theorem version_from_package_json:
  assumes "length argv \<le> 1"
    and "disk w (script_dir e @ [''package.json'']) = Some (File text)"
    and "script_dir e @ [''package.json''] \<notin> set (faulty w)"
    and "json_load e text = Some (JObj kvs)"
  shows "snd (resolve_version e argv w) =
           Inr (case map_of kvs ''version'' of
                  Some v \<Rightarrow> format_version e v
                | None \<Rightarrow> ''0.0.0'')"
  using assms
  by (simp add: resolve_version_def get_version_from_package_def package_path open_read_def
      dict_get_def format_version_def content_def Let_def split: option.splits)

theorem version_from_package_json_witness:
  "snd (resolve_version sample_env [''build.py''] sample_world) = Inr ''2.0.0'' \<and>
   snd (resolve_version sample_env [''build.py'']
     (sample_world\<lparr>disk := [[''home'', ''proj'', ''package.json''] \<mapsto> File ''{}'']\<rparr>)) = Inr ''0.0.0''"
proof -
  have a: "snd (resolve_version sample_env [''build.py''] sample_world) = Inr ''2.0.0''"
    using version_from_package_json[of "[''build.py'']" sample_world sample_env
        "''{\"version\": \"2.0.0\"}''" "[(''version'', JStr ''2.0.0'')]"]
    by (simp add: sample_world_def sample_env_def sample_disk_def format_version_def)
  have b: "snd (resolve_version sample_env [''build.py'']
     (sample_world\<lparr>disk := [[''home'', ''proj'', ''package.json''] \<mapsto> File ''{}'']\<rparr>)) = Inr ''0.0.0''"
    using version_from_package_json[of "[''build.py'']"
        "sample_world\<lparr>disk := [[''home'', ''proj'', ''package.json''] \<mapsto> File ''{}'']\<rparr>" sample_env
        "''{}''" "[]"]
    by (simp add: sample_world_def sample_env_def)
  from a b show ?thesis by simp
qed

text \<open>
  Claim C7.  Take a second run with the version of a run that returned the archive path,
  with a file at that path when it starts, whose copies succeed.  Either \<open>unlink\<close>
  raises and the run raises with it, or the file is deleted and the archive is created in
  the world without it.  If that creation is refused, the run raises and the path holds
  only what the refused creation left, not the old file.  If it succeeds, the run returns
  the same path, and the archive there holds exactly the staged copies of the sources as
  they are at the second run, computed from the disk without the old archive.
\<close>

theorem rebuild_overwrites:
  assumes "build_release e v w0 = (w1, Inr p1)"
    and "exists (disk w) p1"
    and "copy_phase e v ((announce e v w)\<lparr>temp := Some [[] \<mapsto> Dir]\<rparr>) = (wC, Inr u)"
  shows
    "(\<exists>err. unlink p1 wC = (wC, Inl err) \<and>
            build_release e v w = (wC\<lparr>temp := None\<rparr>, Inl err)) \<or>
     (unlink p1 wC = (wC\<lparr>disk := (disk w)(p1 := None)\<rparr>, Inr ()) \<and>
      (\<exists>wD r.
         make_archive (pjoin (output_dir e) (zip_name v)) (zip_name v)
           (wC\<lparr>disk := (disk w)(p1 := None)\<rparr>) = (wD, r) \<and>
         (case r of
            Inl err \<Rightarrow>
              build_release e v w = (wD\<lparr>temp := None\<rparr>, Inl err) \<and> disk wD p1 = leftover w
          | Inr _ \<Rightarrow>
              (\<exists>w'. build_release e v w = (w', Inr p1) \<and>
                    disk w' =
                      (disk w)(p1 \<mapsto> Zip (members
                         (snapshot e ((disk w)(p1 := None)) [zip_name v] INCLUDE
                            [[] \<mapsto> Dir, [zip_name v] \<mapsto> Dir])
                         [zip_name v]))))))"
proof -
  note r1 = build_release_ok[OF assms(1)]
  have p1: "p1 = zip_path e v" by (rule r1(1))
  note zn = zip_name_plain[OF r1(2)]
  note cp = copy_phase_ok[OF assms(3) r1(2)]
  let ?old = "[[] \<mapsto> Dir, [zip_name v] \<mapsto> Dir]"
  let ?base = "pjoin (output_dir e) (zip_name v)"
  have tgt: "archive_file ?base = p1"
    by (simp add: p1 zip_path_def pjoin_zip_name zn archive_file_def)
  have snap: "snapshot e ((disk w)(p1 := None)) [zip_name v] INCLUDE ?old =
        snapshot e (disk w) [zip_name v] INCLUDE ?old"
    by (rule snapshot_cong) (simp add: p1 r1(3) target_not_source[symmetric])
  have exC: "exists (disk wC) (zip_path e v)"
    using assms(2) by (simp add: cp p1)
  have zp: "zip_phase e v wC =
      bind (unlink p1 wC) (\<lambda>_. make_archive ?base (zip_name v))"
    using exC by (simp add: zip_phase_def p1)
  show ?thesis
  proof (cases "unlink p1 wC")
    case (Pair w2 ru)
    show ?thesis
    proof (cases ru)
      case (Inl err)
      have same: "w2 = wC"
        using Pair Inl by (auto simp: unlink_def split: option.splits node.splits)
      have "zip_phase e v wC = (wC, Inl err)"
        by (simp add: zp Pair Inl same bind_simps)
      from build_release_zip_phase[OF assms(3) this]
      have "build_release e v w = (wC\<lparr>temp := None\<rparr>, Inl err)"
        by (simp add: bind_simps)
      with Pair Inl same show ?thesis by simp
    next
      case (Inr x)
      have w2: "w2 = wC\<lparr>disk := (disk w)(p1 := None)\<rparr>"
        using unlink_ok[of p1 wC w2 x] Pair Inr by (simp add: cp)
      have ul: "unlink p1 wC = (wC\<lparr>disk := (disk w)(p1 := None)\<rparr>, Inr ())"
        using Pair Inr w2 by simp
      obtain wD r where ma: "make_archive ?base (zip_name v) w2 = (wD, r)"
        by (cases "make_archive ?base (zip_name v) w2") auto
      have zpr: "zip_phase e v wC = (wD, r)"
        by (simp add: zp Pair Inr bind_simps ma)
      note br = build_release_zip_phase[OF assms(3) zpr]
      have t2: "temp_lookup w2 = temp_lookup wC"
        by (simp add: w2 temp_lookup_def fun_eq_iff)
      have top: "exists (temp_lookup w2) [zip_name v]"
        by (simp add: t2 cp snapshot_def exists_def)
      have nodir: "\<not> is_dir (disk w2) p1"
        by (simp add: w2 is_dir_def)
      have "case r of
            Inl err \<Rightarrow>
              build_release e v w = (wD\<lparr>temp := None\<rparr>, Inl err) \<and> disk wD p1 = leftover w
          | Inr _ \<Rightarrow>
              (\<exists>w'. build_release e v w = (w', Inr p1) \<and>
                    disk w' =
                      (disk w)(p1 \<mapsto> Zip (members
                         (snapshot e ((disk w)(p1 := None)) [zip_name v] INCLUDE ?old)
                         [zip_name v])))"
      proof (cases r)
        case (Inl err)
        have "disk wD p1 = leftover w"
          using ma Inl top nodir
          by (auto simp: make_archive_def Let_def tgt zn w2 cp split: if_splits option.splits)
        with br Inl show ?thesis by (simp add: bind_simps)
      next
        case (Inr y)
        have wD: "wD = w2\<lparr>disk := (disk w2)(p1 \<mapsto> Zip (members (temp_lookup w2) [zip_name v]))\<rparr>"
          using make_archive_ok[of ?base "zip_name v" w2 wD y] ma Inr by (simp add: tgt zn)
        have dD: "disk wD = (disk w)(p1 \<mapsto> Zip (members
                         (snapshot e ((disk w)(p1 := None)) [zip_name v] INCLUDE ?old)
                         [zip_name v]))"
          by (simp add: wD t2 cp snap) (simp add: w2 cp)
        have "\<exists>w'. build_release e v w = (w', Inr p1) \<and> disk w' = disk wD"
          using br Inr by (simp add: bind_simps Let_def dD p1[symmetric])
        with Inr dD show ?thesis by simp
      qed
      with ul ma w2 show ?thesis by blast
    qed
  qed
qed

theorem rebuild_overwrites_witness:
  "exists (disk full_disk_world) [''home'', ''PulsoidWidget-to-OSC-v1.1.1.zip''] \<and>
   snd (build_release sample_env ''1.1.1'' full_disk_world) =
     Inl (OSError [''home'', ''PulsoidWidget-to-OSC-v1.1.1.zip'']) \<and>
   disk (fst (build_release sample_env ''1.1.1'' full_disk_world))
     [''home'', ''PulsoidWidget-to-OSC-v1.1.1.zip''] = None"
proof -
  have cp: "copy_phase sample_env ''1.1.1''
          ((announce sample_env ''1.1.1'' full_disk_world)\<lparr>temp := Some [[] \<mapsto> Dir]\<rparr>) =
     (fst (copy_phase sample_env ''1.1.1''
          ((announce sample_env ''1.1.1'' full_disk_world)\<lparr>temp := Some [[] \<mapsto> Dir]\<rparr>)), Inr ())"
    by (simp add: prod_eq_iff full_disk_copy)
  have lo: "leftover full_disk_world = None" by (simp add: full_disk_world_def)
  from rebuild_overwrites[OF sample_returns full_disk_old_archive cp]
    full_disk_unlink full_disk_make_archive
  have "snd (build_release sample_env ''1.1.1'' full_disk_world) =
     Inl (OSError [''home'', ''PulsoidWidget-to-OSC-v1.1.1.zip'']) \<and>
   disk (fst (build_release sample_env ''1.1.1'' full_disk_world))
     [''home'', ''PulsoidWidget-to-OSC-v1.1.1.zip''] = None"
    by (auto simp: lo)
  with full_disk_old_archive show ?thesis by simp
qed

text \<open>
  Claim C8 as written fails: without a version argument, a missing metadata file raises
  \<open>FileNotFoundError\<close> and an unparsable one raises \<open>JSONDecodeError\<close>.
\<close>

theorem metadata_failure_counterexample:
  "snd (resolve_version sample_env [''build.py''] no_metadata_world) =
     Inl (FileNotFoundError [''home'', ''proj'', ''package.json'']) \<and>
   snd (resolve_version sample_env [''build.py''] bad_metadata_world) = Inl JSONDecodeError"
  by (simp add: resolve_version_def get_version_from_package_def package_path open_read_def
      sample_env_def sample_world_def no_metadata_world_def bad_metadata_world_def content_def Let_def)

text \<open>
  Claim C8, amended.  Without a version argument, a metadata file that is missing, is a
  directory, holds what the parser rejects, or parses to a value that is not an object
  makes version resolution raise: the run ends with the error of the failing step
  (\<open>FileNotFoundError\<close>, \<open>IsADirectoryError\<close>, the parser's own error, or
  \<open>AttributeError\<close>), nothing is built and the world is unchanged.
\<close>

theorem metadata_failure_propagates:
  assumes "length argv \<le> 1"
    and "case disk w (script_dir e @ [''package.json'']) of
           None \<Rightarrow> True
         | Some Dir \<Rightarrow> True
         | Some n \<Rightarrow>
             script_dir e @ [''package.json''] \<notin> set (faulty w) \<and>
             (case json_load e (content e n) of
                None \<Rightarrow> True
              | Some (JObj kvs) \<Rightarrow> False
              | Some _ \<Rightarrow> True)"
  shows "main e argv w =
           (w, Inl (case disk w (script_dir e @ [''package.json'']) of
                      None \<Rightarrow> FileNotFoundError (script_dir e @ [''package.json''])
                    | Some Dir \<Rightarrow> IsADirectoryError (script_dir e @ [''package.json''])
                    | Some n \<Rightarrow>
                        (case json_load e (content e n) of
                           None \<Rightarrow> json_error e (content e n)
                         | Some _ \<Rightarrow> AttributeError)))"
  using assms
  by (auto simp: main_def bind_def resolve_version_def get_version_from_package_def package_path
      open_read_def dict_get_def Let_def split: option.splits node.splits json.splits)

theorem metadata_failure_propagates_witness:
  "main sample_env [''build.py''] no_metadata_world =
     (no_metadata_world, Inl (FileNotFoundError [''home'', ''proj'', ''package.json''])) \<and>
   main sample_env [''build.py''] bad_metadata_world = (bad_metadata_world, Inl JSONDecodeError) \<and>
   main sample_env [''build.py''] list_metadata_world = (list_metadata_world, Inl AttributeError) \<and>
   main sample_env [''build.py''] dir_metadata_world =
     (dir_metadata_world, Inl (IsADirectoryError [''home'', ''proj'', ''package.json'']))"
  using metadata_failure_propagates[where argv = "[''build.py'']" and w = no_metadata_world and e = sample_env]
    metadata_failure_propagates[where argv = "[''build.py'']" and w = bad_metadata_world and e = sample_env]
    metadata_failure_propagates[where argv = "[''build.py'']" and w = list_metadata_world and e = sample_env]
    metadata_failure_propagates[where argv = "[''build.py'']" and w = dir_metadata_world and e = sample_env]
  by (simp add: sample_env_def sample_world_def no_metadata_world_def bad_metadata_world_def
      list_metadata_world_def dir_metadata_world_def content_def)

text \<open>
  Claim C9.  In the archive of a run that returns, the directory
  \<open>PulsoidWidget-to-OSC-v<version>\<close> is a member, and the name of every member starts
  with that directory.
\<close>

theorem archive_single_top_level:
  assumes "build_release e v w = (w', Inr p)" and "disk w' p = Some (Zip a)" and "a q = Some n"
  shows "a [''PulsoidWidget-to-OSC-v'' @ v] = Some Dir \<and>
         (\<exists>rest. q = (''PulsoidWidget-to-OSC-v'' @ v) # rest)"
proof -
  from archive_of_run[OF assms(1)] assms(2)
  have a: "a = members
           (snapshot e (disk w) [zip_name v] INCLUDE [[] \<mapsto> Dir, [zip_name v] \<mapsto> Dir])
           [zip_name v]" by simp
  have top: "a [zip_name v] = Some Dir"
    by (simp add: a members_def under_iff snapshot_def strip_prefix_Some_iff split: option.splits list.splits)
  from assms(3) have "under [zip_name v] q"
    by (simp add: a members_def split: if_splits)
  then have "\<exists>rest. q = zip_name v # rest" by (simp add: under_iff)
  with top show ?thesis by (simp add: zip_name_def)
qed

theorem archive_single_top_level_witness:
  "sample_archive [''PulsoidWidget-to-OSC-v1.1.1'', ''README.md''] = Some (File ''read me'') \<and>
   sample_archive [''PulsoidWidget-to-OSC-v'' @ ''1.1.1''] = Some Dir \<and>
   (\<exists>rest. [''PulsoidWidget-to-OSC-v1.1.1'', ''README.md''] = (''PulsoidWidget-to-OSC-v'' @ ''1.1.1'') # rest)"
  using archive_single_top_level[OF sample_returns sample_archive_on_disk sample_archive_readme]
    sample_archive_readme
  by simp

text \<open>
  Claim C10.  When the copy phase of a run raises (creating the staging subdirectory, or
  the loop over the include list), \<open>build_release\<close> raises the same error and the disk
  is as it was before the run; in particular what was at the target path of the archive is
  still there.
\<close>

theorem copy_failure_keeps_archive:
  assumes "copy_phase e v ((announce e v w)\<lparr>temp := Some [[] \<mapsto> Dir]\<rparr>) = (w1, Inl err)"
  shows "snd (build_release e v w) = Inl err \<and>
         disk (fst (build_release e v w)) (zip_path e v) = disk w (zip_path e v) \<and>
         disk (fst (build_release e v w)) = disk w"
proof -
  have d: "disk w1 = disk w"
    using copy_phase_disk[of e v "(announce e v w)\<lparr>temp := Some [[] \<mapsto> Dir]\<rparr>"]
    by (simp add: assms announce_fields)
  have "build_release e v w = (w1\<lparr>temp := None\<rparr>, Inl err)"
    by (simp add: build_release_def Let_def with_temporary_directory_def assms bind_def)
  with d show ?thesis by simp
qed

theorem copy_failure_keeps_archive_witness:
  "snd (build_release sample_env ''1.1.1'' faulty_world) =
     Inl (ShutilError [''home'', ''proj'', ''code'']) \<and>
   disk (fst (build_release sample_env ''1.1.1'' faulty_world))
     [''home'', ''PulsoidWidget-to-OSC-v1.1.1.zip''] = Some (File ''old archive'')"
proof -
  have h: "copy_phase sample_env ''1.1.1''
          ((announce sample_env ''1.1.1'' faulty_world)\<lparr>temp := Some [[] \<mapsto> Dir]\<rparr>) =
       (fst (copy_phase sample_env ''1.1.1''
          ((announce sample_env ''1.1.1'' faulty_world)\<lparr>temp := Some [[] \<mapsto> Dir]\<rparr>)),
        Inl (ShutilError [''home'', ''proj'', ''code'']))"
    by (simp add: prod_eq_iff faulty_copy)
  from copy_failure_keeps_archive[OF h] show ?thesis
    by (simp add: faulty_world_def)
qed

end
